theory Spec2Isabelle
  imports Main "HOL-Library.Multiset"
begin

section \<open>Data model\<close>

text \<open>
  The health checker of \<^verbatim>\<open>svc.orchestrator/registry/health_checker.go\<close>.
  The packages \<^verbatim>\<open>types\<close>, \<^verbatim>\<open>clients\<close> and \<^verbatim>\<open>storage\<close> are not in the source tree, so
  their structs are declared here with the fields that \<^verbatim>\<open>health_checker.go\<close> reads and
  writes.
\<close>

text \<open>
  Modelled from the spec: \<^verbatim>\<open>types.RegistrantInfo\<close>, the identity of a monitored service
  (service name and control address). The source reads both fields.
\<close>

record RegistrantInfo =
  ServiceName :: string
  ControlAddress :: string

text \<open>
  Modelled from the spec: the metric kinds \<^verbatim>\<open>storage.MetricCPU\<close>, \<^verbatim>\<open>storage.MetricMemory\<close>,
  \<^verbatim>\<open>storage.MetricThreads\<close> and \<^verbatim>\<open>storage.MetricNumGoroutine\<close> (the spec's CPU, Memory,
  Threads and ConcurrencyUnits), four different kinds.
\<close>

datatype MetricID = MetricCPU | MetricMemory | MetricThreads | MetricNumGoroutine

text \<open>
  Modelled from the spec: \<^verbatim>\<open>clients.Stats\<close>, one service's sample at a timestamp. The four
  measurements are all stored into the one \<^verbatim>\<open>Value\<close> field of a data point, so they have
  one type, \<open>'v\<close>; the code only copies them.
\<close>

record 'v Stats =
  ServiceID :: string
  TS :: int
  CPU :: 'v
  Mem :: 'v
  Threads :: 'v
  NumGoroutines :: 'v

text \<open>Modelled from the spec: \<^verbatim>\<open>clients.DataPoint\<close>, one observation for the aggregator.\<close>

record 'v DataPoint =
  dp_MetricID :: MetricID
  dp_ServiceID :: string
  dp_TS :: int
  dp_Value :: 'v

text \<open>
  Modelled from the spec: \<^verbatim>\<open>clients.HeartbeatResponse\<close>, an ordered sequence of per-service
  stats. The code holds it by pointer, which may be nil: \<open>'v HeartbeatResponse option\<close>.
\<close>

record 'v HeartbeatResponse =
  Stats :: "'v Stats list"

text \<open>
  The errors \<^verbatim>\<open>sendHeartBeat\<close> returns: the error that \<^verbatim>\<open>expRetrier.Run\<close> returned, passed on
  as it is (line 91), or the one made by \<^verbatim>\<open>fmt.Errorf("hearteat failed for %s", r.info)\<close>
  (line 95).
\<close>

datatype 'e error = RunError 'e | HeartbeatFailed RegistrantInfo

text \<open>
  The variables the closure passed to \<^verbatim>\<open>expRetrier.Run\<close> captures and assigns: \<^verbatim>\<open>resp\<close>,
  \<^verbatim>\<open>err\<close>, and, through \<^verbatim>\<open>r.client\<close>, the registrant it calls (state \<open>'c\<close>). \<open>calls\<close>
  counts the calls of \<^verbatim>\<open>r.client.Heartbeat\<close>.
\<close>

record ('v, 'e, 'c) probe =
  resp :: "'v HeartbeatResponse option"
  err :: "'e option"
  p_client :: 'c
  calls :: nat

text \<open>
  What the file takes from outside: the package-level \<^verbatim>\<open>maxHeartBeatRetries\<close>, the
  heartbeat client's \<^verbatim>\<open>Heartbeat\<close> (one request to the registrant, returning a response
  pointer and an error), and \<^verbatim>\<open>Run\<close> of the retrier built by
  \<^verbatim>\<open>retrier.New(retrier.ExponentialBackoff(4, 500*time.Millisecond), nil)\<close>, a third-party
  library: it is given the closure and returns an error or nil.
\<close>

record ('v, 'e, 'c) env =
  maxHeartBeatRetries :: int
  Heartbeat :: "'c \<Rightarrow> ('v HeartbeatResponse option \<times> 'e option) \<times> 'c"
  Run :: "(('v, 'e, 'c) probe \<Rightarrow> 'e option \<times> ('v, 'e, 'c) probe)
          \<Rightarrow> ('v, 'e, 'c) probe \<Rightarrow> 'e option \<times> ('v, 'e, 'c) probe"

text \<open>
  The struct \<^verbatim>\<open>healthChecker\<close>. The channel \<^verbatim>\<open>done\<close> is the sequence of values sent on it;
  the ticker is running or stopped; \<^verbatim>\<open>quit\<close> is unbuffered and holds nothing (see
  \<open>stopHealthCheck\<close>). Modelled from the spec: \<^verbatim>\<open>MetricsAggregator\<close>, whose
  \<^verbatim>\<open>AddDataPoint\<close> appends one data point; it is the sequence of the points added.
  \<open>probes\<close> counts the invocations of \<^verbatim>\<open>sendHeartBeat\<close> and \<open>hb_calls\<close> the calls of
  \<^verbatim>\<open>r.client.Heartbeat\<close>.
\<close>

record ('v, 'c) healthChecker =
  info :: RegistrantInfo
  ticker_running :: bool
  done_ch :: "RegistrantInfo list"
  client :: 'c
  aggregator :: "'v DataPoint list"
  probes :: nat
  hb_calls :: nat

section \<open>sendHeartBeat\<close>

definition AddDataPoint :: "'v DataPoint \<Rightarrow> 'v DataPoint list \<Rightarrow> 'v DataPoint list" where
  "AddDataPoint dp agg = agg @ [dp]"

text \<open>The closure of lines 81 to 90: one call of the client, assigning \<^verbatim>\<open>resp\<close> and \<^verbatim>\<open>err\<close>.\<close>

definition work ::
  "('v, 'e, 'c) env \<Rightarrow> ('v, 'e, 'c) probe \<Rightarrow> 'e option \<times> ('v, 'e, 'c) probe" where
  "work E p =
     (case Heartbeat E (p_client p) of
        ((rsp, e), c') \<Rightarrow>
          (let p' = p\<lparr>resp := rsp, err := e, p_client := c', calls := calls p + 1\<rparr>
           in if err p' \<noteq> None then (err p', p') else (None, p')))"

text \<open>The body of the loop of lines 98 to 123.\<close>

definition add_stats :: "'v Stats \<Rightarrow> 'v DataPoint list \<Rightarrow> 'v DataPoint list" where
  "add_stats stats agg =
     AddDataPoint \<lparr>dp_MetricID = MetricNumGoroutine, dp_ServiceID = ServiceID stats,
                   dp_TS = TS stats, dp_Value = NumGoroutines stats\<rparr>
       (AddDataPoint \<lparr>dp_MetricID = MetricThreads, dp_ServiceID = ServiceID stats,
                      dp_TS = TS stats, dp_Value = Threads stats\<rparr>
          (AddDataPoint \<lparr>dp_MetricID = MetricMemory, dp_ServiceID = ServiceID stats,
                         dp_TS = TS stats, dp_Value = Mem stats\<rparr>
             (AddDataPoint \<lparr>dp_MetricID = MetricCPU, dp_ServiceID = ServiceID stats,
                            dp_TS = TS stats, dp_Value = CPU stats\<rparr> agg)))"

fun range_stats :: "'v Stats list \<Rightarrow> 'v DataPoint list \<Rightarrow> 'v DataPoint list" where
  "range_stats [] agg = agg"
| "range_stats (stats # rest) agg = range_stats rest (add_stats stats agg)"

definition initial_probe :: "('v, 'c) healthChecker \<Rightarrow> ('v, 'e, 'c) probe" where
  "initial_probe r = \<lparr>resp = None, err = None, p_client = client r, calls = hb_calls r\<rparr>"

definition sendHeartBeat ::
  "('v, 'e, 'c) env \<Rightarrow> ('v, 'c) healthChecker \<Rightarrow> 'e error option \<times> ('v, 'c) healthChecker" where
  "sendHeartBeat E r =
     (case Run E (work E) (initial_probe r) of
        (res, p) \<Rightarrow>
          (let r' = r\<lparr>client := p_client p, hb_calls := calls p, probes := probes r + 1\<rparr>
           in case res of
                Some e \<Rightarrow> (Some (RunError e), r')
              | None \<Rightarrow>
                  (case resp p of
                     None \<Rightarrow> (Some (HeartbeatFailed (info r)), r')
                   | Some rs \<Rightarrow>
                       (None, r'\<lparr>aggregator := range_stats (Stats rs) (aggregator r')\<rparr>))))"

section \<open>startHealthCheck and stopHealthCheck\<close>

text \<open>
  What the \<^verbatim>\<open>select\<close> of line 54 receives: a value from \<^verbatim>\<open>r.quit\<close> or a tick from
  \<^verbatim>\<open>r.ticker.C\<close>. A run of the loop is given by the sequence of these events; when the
  sequence is used up the goroutine is waiting in the \<^verbatim>\<open>select\<close>.
\<close>

datatype event = Quit | Tick

datatype status = Selecting | Returned

text \<open>
  The loop of lines 53 to 69, from the value of \<^verbatim>\<open>retries\<close> at its head. The result has
  the value of \<^verbatim>\<open>retries\<close> at the end.
\<close>

fun for_loop ::
  "('v, 'e, 'c) env \<Rightarrow> event list \<Rightarrow> int \<Rightarrow> ('v, 'c) healthChecker
   \<Rightarrow> status \<times> int \<times> ('v, 'c) healthChecker" where
  "for_loop E evs retries r =
     (if retries > 0 then
        (case evs of
           [] \<Rightarrow> (Selecting, retries, r)
         | Quit # rest \<Rightarrow> (Returned, retries, r)
         | Tick # rest \<Rightarrow>
             (case sendHeartBeat E r of
                (Some e, r') \<Rightarrow> (Returned, retries - 1, r')
              | (None, r') \<Rightarrow> for_loop E rest (maxHeartBeatRetries E) r'))
      else (Returned, retries, r))"

declare for_loop.simps [simp del]

text \<open>The deferred function of lines 43 to 49.\<close>

definition deferred :: "('v, 'c) healthChecker \<Rightarrow> ('v, 'c) healthChecker" where
  "deferred r = r\<lparr>ticker_running := False, done_ch := done_ch r @ [info r]\<rparr>"

definition startHealthCheck ::
  "('v, 'e, 'c) env \<Rightarrow> event list \<Rightarrow> ('v, 'c) healthChecker
   \<Rightarrow> status \<times> int \<times> ('v, 'c) healthChecker" where
  "startHealthCheck E evs r =
     (case for_loop E evs (maxHeartBeatRetries E) (r\<lparr>ticker_running := True\<rparr>) of
        (Selecting, retries, r') \<Rightarrow> (Selecting, retries, r')
      | (Returned, retries, r') \<Rightarrow> (Returned, retries, deferred r'))"

text \<open>
  \<^verbatim>\<open>stopHealthCheck\<close> sends on \<^verbatim>\<open>r.quit\<close>, made by \<^verbatim>\<open>make(chan struct{})\<close> (line 31), so
  unbuffered: the send completes when the goroutine receives it, which it does only
  in the \<^verbatim>\<open>select\<close> of line 55. This definition is the call made when the goroutine,
  after the events \<open>evs\<close>, is not inside a probe and no tick is ready: either it waits in
  the \<^verbatim>\<open>select\<close>, and its next event is the receipt of the signal, or it has returned, and
  then nothing ever receives: the call does not return, which is \<open>None\<close>. A call at any
  other moment is covered by the schedules of the next section.
\<close>

definition stopHealthCheck ::
  "('v, 'e, 'c) env \<Rightarrow> event list \<Rightarrow> ('v, 'c) healthChecker
   \<Rightarrow> (status \<times> int \<times> ('v, 'c) healthChecker) option" where
  "stopHealthCheck E evs r =
     (case startHealthCheck E evs r of
        (Selecting, _, _) \<Rightarrow> Some (startHealthCheck E (evs @ [Quit]) r)
      | (Returned, _, _) \<Rightarrow> None)"

text \<open>
  \<^verbatim>\<open>newHealthChecker\<close>: the struct it builds. \<^verbatim>\<open>clients.NewHeartbeatClient\<close> is not in the
  source tree and is a parameter. The goroutine it starts is \<open>startHealthCheck\<close>.
\<close>

definition newHealthChecker ::
  "(string \<Rightarrow> 'c) \<Rightarrow> RegistrantInfo \<Rightarrow> RegistrantInfo list \<Rightarrow> 'v DataPoint list
   \<Rightarrow> ('v, 'c) healthChecker" where
  "newHealthChecker NewHeartbeatClient i d a =
     \<lparr>info = i, ticker_running = False, done_ch = d,
      client = NewHeartbeatClient (ControlAddress i), aggregator = a,
      probes = 0, hb_calls = 0\<rparr>"

section \<open>The goroutine and a caller of stopHealthCheck, interleaved\<close>

text \<open>
  The goroutine started by \<^verbatim>\<open>newHealthChecker\<close> (line 35) runs beside the caller of
  \<^verbatim>\<open>stopHealthCheck\<close>. The goroutine is waiting in the \<^verbatim>\<open>select\<close> of line 54, or is inside
  \<^verbatim>\<open>sendHeartBeat\<close> (line 60), or has returned. The call of \<^verbatim>\<open>stopHealthCheck\<close> has not
  been made, or is sending on \<^verbatim>\<open>r.quit\<close> (line 73), or has returned.
\<close>

datatype location = AtSelect | InProbe | Finished

datatype stop_call = NotCalled | Sending | Sent

record ('v, 'c) system =
  pc :: location
  retries :: int
  stop :: stop_call
  checker :: "('v, 'c) healthChecker"

text \<open>
  The steps of the two: the caller enters \<^verbatim>\<open>stopHealthCheck\<close>; the \<^verbatim>\<open>select\<close> takes the case
  of the ticker (line 58); \<^verbatim>\<open>sendHeartBeat\<close> returns and the loop handles its result (lines
  60 to 67); the \<^verbatim>\<open>select\<close> takes the case of \<^verbatim>\<open>r.quit\<close> (line 55), which completes the
  send. When a tick and the signal are both ready the \<^verbatim>\<open>select\<close> may take either, so a
  schedule may have \<open>TakeTick\<close> while the call is sending. Time is not modelled: a
  schedule says in which order the steps were taken, not when.
\<close>

datatype step = CallStop | TakeTick | ProbeReturns | TakeQuit

text \<open>The head of the loop, line 53.\<close>

definition loop_head :: "('v, 'c) system \<Rightarrow> ('v, 'c) system" where
  "loop_head s =
     (if retries s > 0 then s\<lparr>pc := AtSelect\<rparr>
      else s\<lparr>pc := Finished, checker := deferred (checker s)\<rparr>)"

text \<open>The goroutine from its start (lines 41 and 42) to the head of the loop.\<close>

definition spawn :: "('v, 'e, 'c) env \<Rightarrow> ('v, 'c) healthChecker \<Rightarrow> ('v, 'c) system" where
  "spawn E r =
     loop_head \<lparr>pc = AtSelect, retries = maxHeartBeatRetries E, stop = NotCalled,
                checker = r\<lparr>ticker_running := True\<rparr>\<rparr>"

text \<open>
  One step; \<open>None\<close> when the step cannot be taken in this state: a second call (the call
  is made once), a tick or a signal taken by a goroutine that is not in the \<^verbatim>\<open>select\<close>, a
  signal taken when nobody is sending.
\<close>

fun sys_step ::
  "('v, 'e, 'c) env \<Rightarrow> step \<Rightarrow> ('v, 'c) system \<Rightarrow> ('v, 'c) system option" where
  "sys_step E CallStop s = (if stop s = NotCalled then Some (s\<lparr>stop := Sending\<rparr>) else None)"
| "sys_step E TakeTick s = (if pc s = AtSelect then Some (s\<lparr>pc := InProbe\<rparr>) else None)"
| "sys_step E ProbeReturns s =
     (if pc s = InProbe then
        (case sendHeartBeat E (checker s) of
           (Some e, r') \<Rightarrow>
             Some (s\<lparr>pc := Finished, retries := retries s - 1, checker := deferred r'\<rparr>)
         | (None, r') \<Rightarrow>
             Some (loop_head (s\<lparr>retries := maxHeartBeatRetries E, checker := r'\<rparr>)))
      else None)"
| "sys_step E TakeQuit s =
     (if pc s = AtSelect \<and> stop s = Sending
      then Some (s\<lparr>pc := Finished, stop := Sent, checker := deferred (checker s)\<rparr>)
      else None)"

fun run_schedule ::
  "('v, 'e, 'c) env \<Rightarrow> step list \<Rightarrow> ('v, 'c) system \<Rightarrow> ('v, 'c) system option" where
  "run_schedule E [] s = Some s"
| "run_schedule E (x # xs) s =
     (case sys_step E x s of None \<Rightarrow> None | Some s' \<Rightarrow> run_schedule E xs s')"

text \<open>The events the \<^verbatim>\<open>select\<close> has received and handled in a schedule.\<close>

fun events_of :: "step list \<Rightarrow> event list" where
  "events_of [] = []"
| "events_of (ProbeReturns # xs) = Tick # events_of xs"
| "events_of (TakeQuit # xs) = Quit # events_of xs"
| "events_of (CallStop # xs) = events_of xs"
| "events_of (TakeTick # xs) = events_of xs"

section \<open>A registrant and a retry policy to run the code on\<close>

text \<open>
  A registrant whose replies are scripted: each call of \<open>Heartbeat\<close> takes the next
  reply of the script, and a registrant whose script is used up is unreachable.
\<close>

fun scripted_client ::
  "('v HeartbeatResponse option \<times> string option) list
   \<Rightarrow> ('v HeartbeatResponse option \<times> string option)
      \<times> ('v HeartbeatResponse option \<times> string option) list" where
  "scripted_client [] = ((None, Some ''unreachable''), [])"
| "scripted_client (reply # script) = (reply, script)"

text \<open>
  Modelled from the spec: the Retry Policy (package \<^verbatim>\<open>retrier\<close> is a third-party library,
  not in the source tree). It makes up to \<open>n\<close> attempts, returns success on the first
  attempt that succeeds and the last observed error if all attempts fail. The delays
  between attempts are not modelled. The theorems below hold for every \<open>Run\<close>; this one
  is the \<open>Run\<close> of the inputs on which the code is evaluated.
\<close>

fun retry_policy :: "nat \<Rightarrow> ('p \<Rightarrow> 'e option \<times> 'p) \<Rightarrow> 'p \<Rightarrow> 'e option \<times> 'p" where
  "retry_policy n attempt p =
     (case attempt p of
        (None, p') \<Rightarrow> (None, p')
      | (Some e, p') \<Rightarrow> if n \<le> 1 then (Some e, p') else retry_policy (n - 1) attempt p')"

declare retry_policy.simps [simp del]

definition example_env ::
  "int \<Rightarrow> (int, string, (int HeartbeatResponse option \<times> string option) list) env" where
  "example_env budget =
     \<lparr>maxHeartBeatRetries = budget, Heartbeat = scripted_client, Run = retry_policy 4\<rparr>"

definition svc_a :: RegistrantInfo where
  "svc_a = \<lparr>ServiceName = ''svc-a'', ControlAddress = ''10.0.0.1:7000''\<rparr>"

definition sample :: "int Stats" where
  "sample = \<lparr>ServiceID = ''svc-a'', TS = 100, CPU = 5, Mem = 2, Threads = 4,
             NumGoroutines = 10\<rparr>"

definition example_checker ::
  "(int HeartbeatResponse option \<times> string option) list
   \<Rightarrow> (int, (int HeartbeatResponse option \<times> string option) list) healthChecker" where
  "example_checker script = newHealthChecker (\<lambda>address. script) svc_a [] []"

definition down :: "int HeartbeatResponse option \<times> string option" where
  "down = (None, Some ''connection refused'')"

definition up :: "int Stats list \<Rightarrow> int HeartbeatResponse option \<times> string option" where
  "up sts = (Some \<lparr>Stats = sts\<rparr>, None)"

section \<open>Facts about sendHeartBeat\<close>

lemma add_stats_points:
  "add_stats st agg = agg @
     [\<lparr>dp_MetricID = MetricCPU, dp_ServiceID = ServiceID st, dp_TS = TS st, dp_Value = CPU st\<rparr>,
      \<lparr>dp_MetricID = MetricMemory, dp_ServiceID = ServiceID st, dp_TS = TS st, dp_Value = Mem st\<rparr>,
      \<lparr>dp_MetricID = MetricThreads, dp_ServiceID = ServiceID st, dp_TS = TS st,
       dp_Value = Threads st\<rparr>,
      \<lparr>dp_MetricID = MetricNumGoroutine, dp_ServiceID = ServiceID st, dp_TS = TS st,
       dp_Value = NumGoroutines st\<rparr>]"
  by (simp add: add_stats_def AddDataPoint_def)

lemma range_stats_points:
  "range_stats sts agg = agg @ concat (map (\<lambda>st. add_stats st []) sts)"
proof (induction sts arbitrary: agg)
  case Nil
  show ?case by simp
next
  case (Cons st sts)
  have "add_stats st agg = agg @ add_stats st []"
    by (simp add: add_stats_points)
  with Cons show ?case by simp
qed

lemma sendHeartBeat_Run_error:
  assumes "Run E (work E) (initial_probe r) = (Some e, p)"
  shows "sendHeartBeat E r =
           (Some (RunError e),
            r\<lparr>client := p_client p, hb_calls := calls p, probes := probes r + 1\<rparr>)"
  using assms by (simp add: sendHeartBeat_def)

lemma sendHeartBeat_nil_resp:
  assumes "Run E (work E) (initial_probe r) = (None, p)" and "resp p = None"
  shows "sendHeartBeat E r =
           (Some (HeartbeatFailed (info r)),
            r\<lparr>client := p_client p, hb_calls := calls p, probes := probes r + 1\<rparr>)"
  using assms by (simp add: sendHeartBeat_def)

lemma sendHeartBeat_ok:
  assumes "Run E (work E) (initial_probe r) = (None, p)" and "resp p = Some rs"
  shows "sendHeartBeat E r =
           (None,
            r\<lparr>client := p_client p, hb_calls := calls p, probes := probes r + 1,
              aggregator := range_stats (Stats rs) (aggregator r)\<rparr>)"
  using assms by (simp add: sendHeartBeat_def)

lemma sendHeartBeat_frame:
  assumes "sendHeartBeat E r = (res, r')"
  shows "info r' = info r \<and> done_ch r' = done_ch r \<and> ticker_running r' = ticker_running r
         \<and> probes r' = probes r + 1"
proof (cases "Run E (work E) (initial_probe r)")
  case (Pair res0 p)
  show ?thesis
  proof (cases res0)
    case (Some e)
    with Pair assms show ?thesis by (auto simp: sendHeartBeat_Run_error)
  next
    case None
    show ?thesis
    proof (cases "resp p")
      case None
      with \<open>res0 = None\<close> Pair assms show ?thesis by (auto simp: sendHeartBeat_nil_resp)
    next
      case (Some rs)
      with \<open>res0 = None\<close> Pair assms show ?thesis by (auto simp: sendHeartBeat_ok)
    qed
  qed
qed

section \<open>Facts about the loop\<close>

lemma for_loop_Nil:
  "for_loop E [] n r = (if n > 0 then (Selecting, n, r) else (Returned, n, r))"
  by (simp add: for_loop.simps)

lemma for_loop_Quit: "for_loop E (Quit # evs) n r = (Returned, n, r)"
  by (simp add: for_loop.simps)

lemma for_loop_Tick:
  "for_loop E (Tick # evs) n r =
     (if n > 0 then
        (case sendHeartBeat E r of
           (Some e, r') \<Rightarrow> (Returned, n - 1, r')
         | (None, r') \<Rightarrow> for_loop E evs (maxHeartBeatRetries E) r')
      else (Returned, n, r))"
  by (simp add: for_loop.simps)

lemma for_loop_frame:
  "for_loop E evs n r = (st, n', r') \<Longrightarrow>
     info r' = info r \<and> done_ch r' = done_ch r \<and> ticker_running r' = ticker_running r"
proof (induction evs arbitrary: n r)
  case Nil
  then show ?case by (auto simp: for_loop_Nil split: if_splits)
next
  case (Cons ev evs)
  show ?case
  proof (cases ev)
    case Quit
    with Cons.prems show ?thesis by (simp add: for_loop_Quit)
  next
    case Tick
    obtain res r1 where s: "sendHeartBeat E r = (res, r1)"
      by (cases "sendHeartBeat E r")
    note fr = sendHeartBeat_frame [OF s]
    show ?thesis
    proof (cases "n > 0")
      case False
      with Cons.prems Tick show ?thesis by (simp add: for_loop_Tick)
    next
      case True
      show ?thesis
      proof (cases res)
        case (Some e)
        with Cons.prems Tick True s fr show ?thesis by (auto simp: for_loop_Tick)
      next
        case None
        with Cons.prems Tick True s
        have "for_loop E evs (maxHeartBeatRetries E) r1 = (st, n', r')"
          by (simp add: for_loop_Tick)
        from Cons.IH [OF this] fr show ?thesis by simp
      qed
    qed
  qed
qed

lemma for_loop_append_Selecting:
  "for_loop E evs n r = (Selecting, n', r') \<Longrightarrow>
     for_loop E (evs @ evs') n r = for_loop E evs' n' r'"
proof (induction evs arbitrary: n r)
  case Nil
  then show ?case by (auto simp: for_loop_Nil split: if_splits)
next
  case (Cons ev evs)
  show ?case
  proof (cases ev)
    case Quit
    with Cons.prems show ?thesis by (simp add: for_loop_Quit)
  next
    case Tick
    obtain res r1 where s: "sendHeartBeat E r = (res, r1)"
      by (cases "sendHeartBeat E r")
    from Cons.prems Tick have pos: "n > 0"
      by (auto simp: for_loop_Tick split: if_splits)
    show ?thesis
    proof (cases res)
      case (Some e)
      with Cons.prems Tick pos s show ?thesis by (simp add: for_loop_Tick)
    next
      case None
      with Cons.prems Tick pos s
      have "for_loop E evs (maxHeartBeatRetries E) r1 = (Selecting, n', r')"
        by (simp add: for_loop_Tick)
      from Cons.IH [OF this] Tick pos s None show ?thesis by (simp add: for_loop_Tick)
    qed
  qed
qed

lemma for_loop_append_Returned:
  "for_loop E evs n r = (Returned, n', r') \<Longrightarrow>
     for_loop E (evs @ evs') n r = (Returned, n', r')"
proof (induction evs arbitrary: n r)
  case Nil
  then show ?case by (cases evs') (auto simp: for_loop_Nil for_loop.simps split: if_splits)
next
  case (Cons ev evs)
  show ?case
  proof (cases ev)
    case Quit
    with Cons.prems show ?thesis by (simp add: for_loop_Quit)
  next
    case Tick
    obtain res r1 where s: "sendHeartBeat E r = (res, r1)"
      by (cases "sendHeartBeat E r")
    show ?thesis
    proof (cases "n > 0")
      case False
      with Cons.prems Tick show ?thesis by (simp add: for_loop_Tick)
    next
      case True
      show ?thesis
      proof (cases res)
        case (Some e)
        with Cons.prems Tick True s show ?thesis by (simp add: for_loop_Tick)
      next
        case None
        with Cons.prems Tick True s
        have "for_loop E evs (maxHeartBeatRetries E) r1 = (Returned, n', r')"
          by (simp add: for_loop_Tick)
        from Cons.IH [OF this] Tick True s None show ?thesis by (simp add: for_loop_Tick)
      qed
    qed
  qed
qed

lemma first_failure_returns:
  assumes "0 < maxHeartBeatRetries E" and "sendHeartBeat E (r\<lparr>ticker_running := True\<rparr>) = (Some e, r')"
  shows "startHealthCheck E (Tick # evs) r = (Returned, maxHeartBeatRetries E - 1, deferred r')"
  using assms by (simp add: startHealthCheck_def for_loop_Tick)

lemma mset_concat_map: "mset (concat (map f xs)) = (\<Sum>x\<in>#mset xs. mset (f x))"
  by (induction xs) simp_all

lemmas example_defs =
  example_env_def example_checker_def newHealthChecker_def svc_a_def sample_def down_def up_def
  sendHeartBeat_def work_def initial_probe_def startHealthCheck_def stopHealthCheck_def
  spawn_def loop_head_def
  deferred_def add_stats_def AddDataPoint_def for_loop.simps retry_policy.simps

lemma example_run_down:
  "Run (example_env 3) (work (example_env 3))
     (initial_probe (example_checker [down, down, down, down, down, up [sample]])) =
   (Some ''connection refused'',
    \<lparr>resp = None, err = Some ''connection refused'', p_client = [down, up [sample]],
     calls = 4\<rparr>)"
  by (simp add: example_defs)

lemma example_run_up:
  "Run (example_env 3) (work (example_env 3)) (initial_probe (example_checker [down, up [sample]])) =
   (None, \<lparr>resp = Some \<lparr>Stats = [sample]\<rparr>, err = None, p_client = [], calls = 2\<rparr>)"
  by (simp add: example_defs)

lemma example_run_empty:
  "Run (example_env 3) (work (example_env 3)) (initial_probe (example_checker [up []])) =
   (None, \<lparr>resp = Some \<lparr>Stats = []\<rparr>, err = None, p_client = [], calls = 1\<rparr>)"
  by (simp add: example_defs)

section \<open>Facts about schedules\<close>

lemma run_schedule_append:
  "run_schedule E (xs @ ys) s =
     (case run_schedule E xs s of None \<Rightarrow> None | Some s' \<Rightarrow> run_schedule E ys s')"
  by (induction xs arbitrary: s) (simp_all split: option.splits)

lemma run_schedule_snoc:
  "run_schedule E (xs @ [x]) s =
     (case run_schedule E xs s of None \<Rightarrow> None | Some s' \<Rightarrow> sys_step E x s')"
  by (simp add: run_schedule_append split: option.splits)

lemma events_of_append: "events_of (xs @ ys) = events_of xs @ events_of ys"
  by (induction xs rule: events_of.induct) simp_all

lemma spawn_stop: "stop (spawn E r) = NotCalled"
  by (simp add: spawn_def loop_head_def)

lemma sys_step_stop:
  assumes "sys_step E x s = Some s'"
  shows "stop s' = (if x = CallStop then Sending else if x = TakeQuit then Sent else stop s)"
proof (cases x)
  case CallStop
  with assms show ?thesis by (auto split: if_splits)
next
  case TakeTick
  with assms show ?thesis by (auto split: if_splits)
next
  case ProbeReturns
  with assms show ?thesis
    by (auto simp: loop_head_def split: if_splits prod.splits option.splits)
next
  case TakeQuit
  with assms show ?thesis by (auto split: if_splits)
qed

lemma sys_step_Finished:
  assumes "pc s = Finished" and "sys_step E x s = Some s'"
  shows "x = CallStop \<and> stop s = NotCalled \<and> s' = s\<lparr>stop := Sending\<rparr>"
  using assms by (cases x) (auto split: if_splits)

lemma Finished_stays:
  "pc s = Finished \<Longrightarrow> stop s \<noteq> Sent \<Longrightarrow> run_schedule E xs s = Some s' \<Longrightarrow>
     pc s' = Finished \<and> stop s' \<noteq> Sent \<and> checker s' = checker s \<and> retries s' = retries s"
proof (induction xs arbitrary: s)
  case Nil
  then show ?case by simp
next
  case (Cons x xs)
  from Cons.prems(3) obtain s1 where st: "sys_step E x s = Some s1"
    and rest: "run_schedule E xs s1 = Some s'"
    by (auto split: option.splits)
  from sys_step_Finished [OF Cons.prems(1) st] have s1: "s1 = s\<lparr>stop := Sending\<rparr>"
    by simp
  then have "pc s1 = Finished" "stop s1 \<noteq> Sent"
    using Cons.prems(1) by simp_all
  from Cons.IH [OF this rest] s1 show ?case by simp
qed

lemma Sent_is_Finished:
  "run_schedule E xs (spawn E r) = Some s \<Longrightarrow> stop s = Sent \<Longrightarrow>
     pc s = Finished \<and> xs \<noteq> [] \<and> last xs = TakeQuit"
proof (induction xs arbitrary: s rule: rev_induct)
  case Nil
  then have "s = spawn E r" by simp
  with Nil show ?case by (simp add: spawn_stop)
next
  case (snoc x xs)
  from snoc.prems(1) obtain s1 where pre: "run_schedule E xs (spawn E r) = Some s1"
    and st: "sys_step E x s1 = Some s"
    by (auto simp: run_schedule_snoc split: option.splits)
  show ?case
  proof (cases "x = TakeQuit")
    case True
    with st show ?thesis by (auto split: if_splits)
  next
    case False
    with sys_step_stop [OF st] snoc.prems(2) have "stop s1 = Sent"
      by (auto split: if_splits)
    from snoc.IH [OF pre this] have "pc s1 = Finished" by simp
    from sys_step_Finished [OF this st] \<open>stop s1 = Sent\<close> show ?thesis by simp
  qed
qed

lemma Sent_iff_TakeQuit:
  "run_schedule E xs (spawn E r) = Some s \<Longrightarrow> (stop s = Sent) = (TakeQuit \<in> set xs)"
proof (induction xs arbitrary: s rule: rev_induct)
  case Nil
  then have "s = spawn E r" by simp
  with Nil show ?case by (simp add: spawn_stop)
next
  case (snoc x xs)
  from snoc.prems obtain s1 where pre: "run_schedule E xs (spawn E r) = Some s1"
    and st: "sys_step E x s1 = Some s"
    by (auto simp: run_schedule_snoc split: option.splits)
  note ih = snoc.IH [OF pre]
  show ?case
  proof (cases "x = TakeQuit")
    case True
    with sys_step_stop [OF st] show ?thesis by simp
  next
    case False
    show ?thesis
    proof (cases "stop s1 = Sent")
      case True
      with Sent_is_Finished [OF pre] have "pc s1 = Finished" by simp
      from sys_step_Finished [OF this st] True show ?thesis by simp
    next
      case nosent: False
      with ih have "TakeQuit \<notin> set xs" by simp
      moreover from sys_step_stop [OF st] False nosent have "stop s \<noteq> Sent"
        by (auto split: if_splits)
      ultimately show ?thesis using False by simp
    qed
  qed
qed

text \<open>The schedules run the loop of \<open>startHealthCheck\<close>.\<close>

lemma startHealthCheck_snoc_Quit:
  assumes "startHealthCheck E evs r = (Selecting, n, r')"
  shows "startHealthCheck E (evs @ [Quit]) r = (Returned, n, deferred r')"
proof -
  from assms have "for_loop E evs (maxHeartBeatRetries E) (r\<lparr>ticker_running := True\<rparr>)
      = (Selecting, n, r')"
    by (auto simp: startHealthCheck_def split: prod.splits status.splits)
  then have "for_loop E (evs @ [Quit]) (maxHeartBeatRetries E) (r\<lparr>ticker_running := True\<rparr>)
      = for_loop E [Quit] n r'"
    by (rule for_loop_append_Selecting)
  then show ?thesis by (simp add: startHealthCheck_def for_loop_Quit)
qed

lemma startHealthCheck_snoc_Tick:
  assumes "startHealthCheck E evs r = (Selecting, n, r')"
  shows "startHealthCheck E (evs @ [Tick]) r =
           (case sendHeartBeat E r' of
              (Some e, r'') \<Rightarrow> (Returned, n - 1, deferred r'')
            | (None, r'') \<Rightarrow>
                if maxHeartBeatRetries E > 0 then (Selecting, maxHeartBeatRetries E, r'')
                else (Returned, maxHeartBeatRetries E, deferred r''))"
proof -
  from assms have l: "for_loop E evs (maxHeartBeatRetries E) (r\<lparr>ticker_running := True\<rparr>)
      = (Selecting, n, r')"
    by (auto simp: startHealthCheck_def split: prod.splits status.splits)
  have pos: "n > 0"
  proof (rule ccontr)
    assume "\<not> n > 0"
    then have "for_loop E [] n r' = (Returned, n, r')" by (simp add: for_loop_Nil)
    moreover from for_loop_append_Selecting [OF l, of "[]"]
    have "for_loop E [] n r' = (Selecting, n, r')" using l by simp
    ultimately show False by simp
  qed
  from l have "for_loop E (evs @ [Tick]) (maxHeartBeatRetries E) (r\<lparr>ticker_running := True\<rparr>)
      = for_loop E [Tick] n r'"
    by (rule for_loop_append_Selecting)
  with pos show ?thesis
    by (simp add: startHealthCheck_def for_loop_Tick for_loop_Nil split: prod.splits option.splits)
qed

lemma schedule_runs_the_loop:
  "run_schedule E xs (spawn E r) = Some s \<Longrightarrow>
     startHealthCheck E (events_of xs) r =
       (if pc s = Finished then Returned else Selecting, retries s, checker s)"
proof (induction xs arbitrary: s rule: rev_induct)
  case Nil
  then show ?case
    by (auto simp: spawn_def loop_head_def startHealthCheck_def for_loop_Nil)
next
  case (snoc x xs)
  from snoc.prems obtain s1 where pre: "run_schedule E xs (spawn E r) = Some s1"
    and st: "sys_step E x s1 = Some s"
    by (auto simp: run_schedule_snoc split: option.splits)
  note ih = snoc.IH [OF pre]
  show ?case
  proof (cases x)
    case CallStop
    with st ih show ?thesis by (auto simp: events_of_append split: if_splits)
  next
    case TakeTick
    with st ih show ?thesis by (auto simp: events_of_append split: if_splits)
  next
    case TakeQuit
    with st have "pc s1 = AtSelect" and s: "s = s1\<lparr>pc := Finished, stop := Sent,
        checker := deferred (checker s1)\<rparr>"
      by (auto split: if_splits)
    with ih have "startHealthCheck E (events_of xs) r = (Selecting, retries s1, checker s1)"
      by simp
    from startHealthCheck_snoc_Quit [OF this] TakeQuit s show ?thesis
      by (simp add: events_of_append)
  next
    case ProbeReturns
    with st have "pc s1 = InProbe" by (auto split: if_splits)
    with ih have "startHealthCheck E (events_of xs) r = (Selecting, retries s1, checker s1)"
      by simp
    from startHealthCheck_snoc_Tick [OF this] ProbeReturns st \<open>pc s1 = InProbe\<close> show ?thesis
      by (auto simp: events_of_append loop_head_def split: prod.splits option.splits if_splits)
  qed
qed

text \<open>
  \<open>stopHealthCheck\<close> agrees with the schedules where it applies: a call that finds the
  loop waiting is received next, a call that finds the loop returned never is.
\<close>

lemma stopHealthCheck_in_schedule:
  assumes "run_schedule E xs (spawn E r) = Some s" and "pc s \<noteq> InProbe"
  shows "stopHealthCheck E (events_of xs) r =
           (if pc s = AtSelect then Some (Returned, retries s, deferred (checker s)) else None)"
proof (cases "pc s")
  case AtSelect
  with schedule_runs_the_loop [OF assms(1)]
  have l: "startHealthCheck E (events_of xs) r = (Selecting, retries s, checker s)"
    by simp
  from startHealthCheck_snoc_Quit [OF l] l AtSelect show ?thesis
    by (simp add: stopHealthCheck_def)
next
  case InProbe
  with assms(2) show ?thesis by simp
next
  case Finished
  with schedule_runs_the_loop [OF assms(1)] show ?thesis
    by (simp add: stopHealthCheck_def)
qed

section \<open>The claims\<close>

text \<open>
  C1. The claim: a successful probe cycle resets the retry counter to
  \<^verbatim>\<open>maxHeartBeatRetries\<close>, and the loop ends because of failures only after
  \<^verbatim>\<open>maxHeartBeatRetries\<close> consecutive failed cycles, so that fewer failures followed by a
  success do not end it. The code at a budget of 3, with a registrant that refuses five
  requests and answers from the sixth on, so that the first cycle fails and a second
  cycle would succeed: the \<^verbatim>\<open>return\<close> of line 64
  ends the loop after the first failed cycle, with \<^verbatim>\<open>retries\<close> at 2; the termination
  report is sent and the second tick is never probed (one invocation of
  \<^verbatim>\<open>sendHeartBeat\<close>, nothing added to the aggregator).
\<close>

theorem first_failed_cycle_ends_the_loop:
  "startHealthCheck (example_env 3) [Tick, Tick]
     (example_checker [down, down, down, down, down, up [sample]]) =
   (Returned, 2,
    \<lparr>info = svc_a, ticker_running = False, done_ch = [svc_a], client = [down, up [sample]],
     aggregator = [], probes = 1, hb_calls = 4\<rparr>)"
  by (simp add: example_defs)

text \<open>
  C2. In a successful probe cycle (\<^verbatim>\<open>Run\<close> returns nil and \<^verbatim>\<open>resp\<close> is not nil),
  \<^verbatim>\<open>sendHeartBeat\<close> returns nil and adds to the aggregator four data points for each
  Stats entry of the response and nothing else: as a multiset, for each entry one point
  of each metric kind, with the entry's service id and timestamp, and with the entry's
  CPU, memory, thread count and goroutine count as the values.
\<close>

theorem four_data_points_per_entry:
  assumes "Run E (work E) (initial_probe r) = (None, p)" and "resp p = Some rs"
  shows "fst (sendHeartBeat E r) = None \<and>
         (\<exists>new. aggregator (snd (sendHeartBeat E r)) = aggregator r @ new \<and>
            length new = 4 * length (Stats rs) \<and>
            mset new =
              (\<Sum>st\<in>#mset (Stats rs).
                 {#\<lparr>dp_MetricID = MetricCPU, dp_ServiceID = ServiceID st, dp_TS = TS st,
                     dp_Value = CPU st\<rparr>,
                   \<lparr>dp_MetricID = MetricMemory, dp_ServiceID = ServiceID st, dp_TS = TS st,
                     dp_Value = Mem st\<rparr>,
                   \<lparr>dp_MetricID = MetricThreads, dp_ServiceID = ServiceID st, dp_TS = TS st,
                     dp_Value = Threads st\<rparr>,
                   \<lparr>dp_MetricID = MetricNumGoroutine, dp_ServiceID = ServiceID st, dp_TS = TS st,
                     dp_Value = NumGoroutines st\<rparr>#}))"
proof -
  let ?new = "concat (map (\<lambda>st. add_stats st []) (Stats rs))"
  have agg: "aggregator (snd (sendHeartBeat E r)) = aggregator r @ ?new"
    by (simp add: sendHeartBeat_ok [OF assms] range_stats_points)
  have len: "length ?new = 4 * length (Stats rs)"
    by (induction "Stats rs" arbitrary: rs) (simp_all add: add_stats_points length_concat o_def sum_list_triv)
  have "mset ?new = (\<Sum>st\<in>#mset (Stats rs). mset (add_stats st []))"
    by (rule mset_concat_map)
  then have ms: "mset ?new =
              (\<Sum>st\<in>#mset (Stats rs).
                 {#\<lparr>dp_MetricID = MetricCPU, dp_ServiceID = ServiceID st, dp_TS = TS st,
                     dp_Value = CPU st\<rparr>,
                   \<lparr>dp_MetricID = MetricMemory, dp_ServiceID = ServiceID st, dp_TS = TS st,
                     dp_Value = Mem st\<rparr>,
                   \<lparr>dp_MetricID = MetricThreads, dp_ServiceID = ServiceID st, dp_TS = TS st,
                     dp_Value = Threads st\<rparr>,
                   \<lparr>dp_MetricID = MetricNumGoroutine, dp_ServiceID = ServiceID st, dp_TS = TS st,
                     dp_Value = NumGoroutines st\<rparr>#})"
    by (simp add: add_stats_points)
  have "fst (sendHeartBeat E r) = None"
    by (simp add: sendHeartBeat_ok [OF assms])
  with agg len ms show ?thesis by blast
qed

text \<open>
  C2 on a response with one entry, received at the second attempt.
\<close>

theorem four_data_points_per_entry_witness:
  "fst (sendHeartBeat (example_env 3) (example_checker [down, up [sample]])) = None \<and>
   (\<exists>new. aggregator (snd (sendHeartBeat (example_env 3) (example_checker [down, up [sample]])))
             = [] @ new \<and>
      length new = 4 * length [sample] \<and>
      mset new =
        {#\<lparr>dp_MetricID = MetricCPU, dp_ServiceID = ''svc-a'', dp_TS = 100, dp_Value = 5\<rparr>,
          \<lparr>dp_MetricID = MetricMemory, dp_ServiceID = ''svc-a'', dp_TS = 100, dp_Value = 2\<rparr>,
          \<lparr>dp_MetricID = MetricThreads, dp_ServiceID = ''svc-a'', dp_TS = 100, dp_Value = 4\<rparr>,
          \<lparr>dp_MetricID = MetricNumGoroutine, dp_ServiceID = ''svc-a'', dp_TS = 100,
            dp_Value = 10\<rparr>#})"
  using four_data_points_per_entry [OF example_run_up]
  by (simp add: example_checker_def newHealthChecker_def sample_def)

text \<open>
  C3. \<^verbatim>\<open>sendHeartBeat\<close> returns an error if and only if \<^verbatim>\<open>Run\<close> of the retry policy
  returned an error, or returned nil with \<^verbatim>\<open>resp\<close> left nil. In the first case the error
  returned is the one \<^verbatim>\<open>Run\<close> returned, in the second the "hearteat failed" error for
  the registrant. A cycle that returns an error is counted in the loop: \<^verbatim>\<open>retries\<close> is
  decremented.
\<close>

theorem probe_cycle_fails_iff:
  assumes "Run E (work E) (initial_probe r) = (res, p)"
  shows "((fst (sendHeartBeat E r) \<noteq> None) = (res \<noteq> None \<or> (res = None \<and> resp p = None))) \<and>
         (\<forall>e. res = Some e \<longrightarrow> fst (sendHeartBeat E r) = Some (RunError e)) \<and>
         (res = None \<and> resp p = None \<longrightarrow> fst (sendHeartBeat E r) = Some (HeartbeatFailed (info r))) \<and>
         (fst (sendHeartBeat E r) \<noteq> None \<and> 0 < n \<longrightarrow>
            for_loop E (Tick # evs) n r = (Returned, n - 1, snd (sendHeartBeat E r)))"
proof (cases res)
  case (Some e)
  with assms have "sendHeartBeat E r =
      (Some (RunError e), r\<lparr>client := p_client p, hb_calls := calls p, probes := probes r + 1\<rparr>)"
    by (simp add: sendHeartBeat_Run_error)
  with Some show ?thesis by (simp add: for_loop_Tick)
next
  case None
  show ?thesis
  proof (cases "resp p")
    case (Some rs)
    with None assms show ?thesis by (simp add: sendHeartBeat_ok)
  next
    case nil: None
    with None assms have "sendHeartBeat E r =
        (Some (HeartbeatFailed (info r)),
         r\<lparr>client := p_client p, hb_calls := calls p, probes := probes r + 1\<rparr>)"
      by (simp add: sendHeartBeat_nil_resp)
    with None nil show ?thesis by (simp add: for_loop_Tick)
  qed
qed

text \<open>
  C3 on a registrant that refuses every attempt of the cycle.
\<close>

theorem probe_cycle_fails_iff_witness:
  "fst (sendHeartBeat (example_env 3) (example_checker [down, down, down, down, down, up [sample]]))
     = Some (RunError ''connection refused'') \<and>
   for_loop (example_env 3) [Tick, Tick] 3 (example_checker [down, down, down, down, down, up [sample]])
     = (Returned, 2,
        snd (sendHeartBeat (example_env 3) (example_checker [down, down, down, down, down, up [sample]])))"
  using probe_cycle_fails_iff [OF example_run_down, of 3 "[Tick]"] by simp

text \<open>
  C4. After any sequence of events, the values this health checker has sent on the
  channel \<^verbatim>\<open>done\<close> are: its registrant identity, once, when \<^verbatim>\<open>startHealthCheck\<close> has
  returned (whether a stop signal or a failed probe cycle ended the loop), and nothing
  while the loop is still waiting. Once it has returned, no later event changes
  anything, so a second report is never sent. The identity is never modified.
\<close>

theorem exactly_one_termination_report:
  assumes "startHealthCheck E evs r = (st, n, r')"
  shows "info r' = info r \<and>
         done_ch r' = done_ch r @ (if st = Returned then [info r] else []) \<and>
         (st = Returned \<longrightarrow> startHealthCheck E (evs @ evs') r = (st, n, r'))"
proof -
  obtain st0 n0 r0 where l: "for_loop E evs (maxHeartBeatRetries E) (r\<lparr>ticker_running := True\<rparr>)
      = (st0, n0, r0)"
    by (cases "for_loop E evs (maxHeartBeatRetries E) (r\<lparr>ticker_running := True\<rparr>)")
  from for_loop_frame [OF l] have fr: "info r0 = info r" "done_ch r0 = done_ch r"
    by simp_all
  show ?thesis
  proof (cases st0)
    case Selecting
    with l assms have "st = Selecting" "r' = r0"
      by (simp_all add: startHealthCheck_def)
    with fr show ?thesis by simp
  next
    case Returned
    with l assms have eq: "st = Returned" "n = n0" "r' = deferred r0"
      by (simp_all add: startHealthCheck_def)
    from l Returned
    have "for_loop E (evs @ evs') (maxHeartBeatRetries E) (r\<lparr>ticker_running := True\<rparr>)
            = (Returned, n0, r0)"
      by (simp add: for_loop_append_Returned)
    then have "startHealthCheck E (evs @ evs') r = (Returned, n0, deferred r0)"
      by (simp add: startHealthCheck_def)
    with eq fr show ?thesis by (simp add: deferred_def)
  qed
qed

text \<open>
  C4 on a run that probes once and is then stopped, and on a run ended by a failed
  probe cycle of an unreachable registrant.
\<close>

theorem exactly_one_termination_report_witness:
  "startHealthCheck (example_env 3) [Tick, Quit] (example_checker [up [sample]]) =
     (Returned, 3,
      \<lparr>info = svc_a, ticker_running = False, done_ch = [svc_a], client = [],
       aggregator = add_stats sample [], probes = 1, hb_calls = 1\<rparr>) \<and>
   startHealthCheck (example_env 3) ([Tick, Quit] @ [Tick, Quit]) (example_checker [up [sample]]) =
     (Returned, 3,
      \<lparr>info = svc_a, ticker_running = False, done_ch = [svc_a], client = [],
       aggregator = add_stats sample [], probes = 1, hb_calls = 1\<rparr>) \<and>
   startHealthCheck (example_env 3) [Tick] (example_checker []) =
     (Returned, 2,
      \<lparr>info = svc_a, ticker_running = False, done_ch = [svc_a], client = [],
       aggregator = [], probes = 1, hb_calls = 4\<rparr>) \<and>
   startHealthCheck (example_env 3) ([Tick] @ [Quit]) (example_checker []) =
     (Returned, 2,
      \<lparr>info = svc_a, ticker_running = False, done_ch = [svc_a], client = [],
       aggregator = [], probes = 1, hb_calls = 4\<rparr>)"
proof -
  have stopped: "startHealthCheck (example_env 3) [Tick, Quit] (example_checker [up [sample]]) =
     (Returned, 3,
      \<lparr>info = svc_a, ticker_running = False, done_ch = [svc_a], client = [],
       aggregator = add_stats sample [], probes = 1, hb_calls = 1\<rparr>)"
    by (simp add: example_defs)
  have failed: "startHealthCheck (example_env 3) [Tick] (example_checker []) =
     (Returned, 2,
      \<lparr>info = svc_a, ticker_running = False, done_ch = [svc_a], client = [],
       aggregator = [], probes = 1, hb_calls = 4\<rparr>)"
    by (simp add: example_defs)
  from exactly_one_termination_report [OF stopped, of "[Tick, Quit]"]
    exactly_one_termination_report [OF failed, of "[Quit]"] stopped failed
  show ?thesis by simp
qed

text \<open>
  C5, counterexample. The claim: \<^verbatim>\<open>stop()\<close> called once completes in every reachable
  state, also when the loop has already ended on its own, and the loop observes the
  signal no later than the next scheduling event and exits without any further probe.
  With an unreachable registrant: called after the failed probe cycle that ended the
  loop, the call stays sending and the signal can never be taken; called while the
  loop is running, inside the probe that then fails, the same. With a registrant that
  answers: called while the loop waits in its \<^verbatim>\<open>select\<close> with a tick ready as well, the
  \<^verbatim>\<open>select\<close> takes the tick and a probe is made after the call (one invocation of
  \<^verbatim>\<open>sendHeartBeat\<close>, four points added), before the signal is taken.
\<close>

theorem stop_can_block_and_a_probe_can_follow:
  "run_schedule (example_env 3) [TakeTick, ProbeReturns, CallStop]
     (spawn (example_env 3) (example_checker [])) =
     Some \<lparr>pc = Finished, retries = 2, stop = Sending,
           checker = \<lparr>info = svc_a, ticker_running = False, done_ch = [svc_a], client = [],
                      aggregator = [], probes = 1, hb_calls = 4\<rparr>\<rparr> \<and>
   run_schedule (example_env 3) [TakeTick, ProbeReturns, CallStop, TakeQuit]
     (spawn (example_env 3) (example_checker [])) = None \<and>
   run_schedule (example_env 3) [TakeTick, CallStop, ProbeReturns]
     (spawn (example_env 3) (example_checker [])) =
     Some \<lparr>pc = Finished, retries = 2, stop = Sending,
           checker = \<lparr>info = svc_a, ticker_running = False, done_ch = [svc_a], client = [],
                      aggregator = [], probes = 1, hb_calls = 4\<rparr>\<rparr> \<and>
   run_schedule (example_env 3) [TakeTick, CallStop, ProbeReturns, TakeQuit]
     (spawn (example_env 3) (example_checker [])) = None \<and>
   run_schedule (example_env 3) [CallStop, TakeTick, ProbeReturns, TakeQuit]
     (spawn (example_env 3) (example_checker [up [sample]])) =
     Some \<lparr>pc = Finished, retries = 3, stop = Sent,
           checker = \<lparr>info = svc_a, ticker_running = False, done_ch = [svc_a], client = [],
                      aggregator = add_stats sample [], probes = 1, hb_calls = 1\<rparr>\<rparr>"
  by (simp add: example_defs)

text \<open>
  C5, amended. In every schedule of the goroutine and one call of \<^verbatim>\<open>stopHealthCheck\<close>:
  the call has returned if and only if the \<^verbatim>\<open>select\<close> has taken the case of \<^verbatim>\<open>r.quit\<close>.
  That was then the last step: the loop was waiting in its \<^verbatim>\<open>select\<close> with the call
  sending, and it returned at once, with no further probe (client, aggregator and both
  counters as before), the ticker stopped and the termination report sent. Whenever
  the call is sending and the loop waits in its \<^verbatim>\<open>select\<close>, the signal can be taken; a
  ready tick can be taken instead, and is then probed. Once the loop has returned
  without taking the signal (before the call, or after it by a failed probe cycle), the
  call never returns and the health checker does nothing more.
\<close>

theorem stop_completes_iff_quit_taken:
  assumes "run_schedule E xs (spawn E r) = Some s"
  shows "(stop s = Sent) = (TakeQuit \<in> set xs) \<and>
         (stop s = Sent \<longrightarrow>
            (\<exists>pre s0. xs = pre @ [TakeQuit] \<and> run_schedule E pre (spawn E r) = Some s0 \<and>
               pc s0 = AtSelect \<and> stop s0 = Sending \<and>
               s = s0\<lparr>pc := Finished, stop := Sent,
                      checker := (checker s0)\<lparr>ticker_running := False,
                        done_ch := done_ch (checker s0) @ [info (checker s0)]\<rparr>\<rparr>)) \<and>
         (stop s = Sending \<and> pc s = AtSelect \<longrightarrow>
            run_schedule E (xs @ [TakeQuit]) (spawn E r) =
              Some (s\<lparr>pc := Finished, stop := Sent,
                      checker := (checker s)\<lparr>ticker_running := False,
                        done_ch := done_ch (checker s) @ [info (checker s)]\<rparr>\<rparr>)) \<and>
         (pc s = AtSelect \<longrightarrow>
            run_schedule E (xs @ [TakeTick]) (spawn E r) = Some (s\<lparr>pc := InProbe\<rparr>)) \<and>
         (stop s \<noteq> Sent \<and> pc s = Finished \<longrightarrow>
            (\<forall>ys s'. run_schedule E (xs @ ys) (spawn E r) = Some s' \<longrightarrow>
               stop s' \<noteq> Sent \<and> pc s' = Finished \<and> checker s' = checker s))"
proof -
  have iff: "(stop s = Sent) = (TakeQuit \<in> set xs)"
    using assms by (rule Sent_iff_TakeQuit)
  have last: "\<exists>pre s0. xs = pre @ [TakeQuit] \<and> run_schedule E pre (spawn E r) = Some s0 \<and>
               pc s0 = AtSelect \<and> stop s0 = Sending \<and>
               s = s0\<lparr>pc := Finished, stop := Sent,
                      checker := (checker s0)\<lparr>ticker_running := False,
                        done_ch := done_ch (checker s0) @ [info (checker s0)]\<rparr>\<rparr>"
    if sent: "stop s = Sent"
  proof -
    from Sent_is_Finished [OF assms sent] have xs: "xs = butlast xs @ [TakeQuit]"
      by (metis append_butlast_last_id)
    with assms have "run_schedule E (butlast xs @ [TakeQuit]) (spawn E r) = Some s"
      by simp
    then obtain s0 where pre: "run_schedule E (butlast xs) (spawn E r) = Some s0"
      and st: "sys_step E TakeQuit s0 = Some s"
      by (auto simp: run_schedule_snoc split: option.splits)
    from st have c: "pc s0 = AtSelect \<and> stop s0 = Sending"
      by (simp split: if_splits)
    with st have "s = s0\<lparr>pc := Finished, stop := Sent,
                  checker := (checker s0)\<lparr>ticker_running := False,
                    done_ch := done_ch (checker s0) @ [info (checker s0)]\<rparr>\<rparr>"
      by (simp add: deferred_def)
    with xs pre c show ?thesis by (intro exI [of _ "butlast xs"] exI [of _ s0]) simp
  qed
  have quit: "run_schedule E (xs @ [TakeQuit]) (spawn E r) =
              Some (s\<lparr>pc := Finished, stop := Sent,
                      checker := (checker s)\<lparr>ticker_running := False,
                        done_ch := done_ch (checker s) @ [info (checker s)]\<rparr>\<rparr>)"
    if "stop s = Sending" "pc s = AtSelect"
    using assms that by (simp add: run_schedule_snoc deferred_def)
  have tick: "run_schedule E (xs @ [TakeTick]) (spawn E r) = Some (s\<lparr>pc := InProbe\<rparr>)"
    if "pc s = AtSelect"
    using assms that by (simp add: run_schedule_snoc)
  have blocked: "stop s' \<noteq> Sent \<and> pc s' = Finished \<and> checker s' = checker s"
    if "stop s \<noteq> Sent" "pc s = Finished" "run_schedule E (xs @ ys) (spawn E r) = Some s'"
    for ys s'
  proof -
    from that(3) assms have "run_schedule E ys s = Some s'"
      by (simp add: run_schedule_append)
    from Finished_stays [OF that(2) that(1) this] show ?thesis by simp
  qed
  show ?thesis
  proof (intro conjI impI allI)
    show "(stop s = Sent) = (TakeQuit \<in> set xs)" by (rule iff)
  next
    assume "stop s = Sent"
    then show "\<exists>pre s0. xs = pre @ [TakeQuit] \<and> run_schedule E pre (spawn E r) = Some s0 \<and>
               pc s0 = AtSelect \<and> stop s0 = Sending \<and>
               s = s0\<lparr>pc := Finished, stop := Sent,
                      checker := (checker s0)\<lparr>ticker_running := False,
                        done_ch := done_ch (checker s0) @ [info (checker s0)]\<rparr>\<rparr>"
      by (rule last)
  next
    assume "stop s = Sending \<and> pc s = AtSelect"
    then show "run_schedule E (xs @ [TakeQuit]) (spawn E r) =
              Some (s\<lparr>pc := Finished, stop := Sent,
                      checker := (checker s)\<lparr>ticker_running := False,
                        done_ch := done_ch (checker s) @ [info (checker s)]\<rparr>\<rparr>)"
      using quit by simp
  next
    assume "pc s = AtSelect"
    then show "run_schedule E (xs @ [TakeTick]) (spawn E r) = Some (s\<lparr>pc := InProbe\<rparr>)"
      by (rule tick)
  next
    fix ys s'
    assume a: "stop s \<noteq> Sent \<and> pc s = Finished"
      and b: "run_schedule E (xs @ ys) (spawn E r) = Some s'"
    from a b blocked [of ys s'] show "stop s' \<noteq> Sent" by simp
    from a b blocked [of ys s'] show "pc s' = Finished" by simp
    from a b blocked [of ys s'] show "checker s' = checker s" by simp
  qed
qed

text \<open>
  C5, amended, on a registrant that answers, stopped while the loop waits after one
  probe, and on an unreachable registrant, stopped during the probe that fails.
\<close>

theorem stop_completes_iff_quit_taken_witness:
  "run_schedule (example_env 3) [TakeTick, ProbeReturns, CallStop]
     (spawn (example_env 3) (example_checker [up [sample]])) =
     Some \<lparr>pc = AtSelect, retries = 3, stop = Sending,
           checker = \<lparr>info = svc_a, ticker_running = True, done_ch = [], client = [],
                      aggregator = add_stats sample [], probes = 1, hb_calls = 1\<rparr>\<rparr> \<and>
   run_schedule (example_env 3) ([TakeTick, ProbeReturns, CallStop] @ [TakeQuit])
     (spawn (example_env 3) (example_checker [up [sample]])) =
     Some \<lparr>pc = Finished, retries = 3, stop = Sent,
           checker = \<lparr>info = svc_a, ticker_running = False, done_ch = [svc_a], client = [],
                      aggregator = add_stats sample [], probes = 1, hb_calls = 1\<rparr>\<rparr> \<and>
   run_schedule (example_env 3) [TakeTick, CallStop, ProbeReturns]
     (spawn (example_env 3) (example_checker [])) =
     Some \<lparr>pc = Finished, retries = 2, stop = Sending,
           checker = \<lparr>info = svc_a, ticker_running = False, done_ch = [svc_a], client = [],
                      aggregator = [], probes = 1, hb_calls = 4\<rparr>\<rparr> \<and>
   (TakeQuit \<notin> set [TakeTick, CallStop, ProbeReturns])"
proof -
  let ?w = "\<lparr>pc = AtSelect, retries = 3, stop = Sending,
           checker = \<lparr>info = svc_a, ticker_running = True, done_ch = [],
                      client = ([] :: (int HeartbeatResponse option \<times> string option) list),
                      aggregator = add_stats sample [], probes = 1, hb_calls = 1\<rparr>\<rparr>"
  let ?f = "\<lparr>pc = Finished, retries = 2, stop = Sending,
           checker = \<lparr>info = svc_a, ticker_running = False, done_ch = [svc_a],
                      client = ([] :: (int HeartbeatResponse option \<times> string option) list),
                      aggregator = ([] :: int DataPoint list), probes = 1, hb_calls = 4\<rparr>\<rparr>"
  have waiting: "run_schedule (example_env 3) [TakeTick, ProbeReturns, CallStop]
     (spawn (example_env 3) (example_checker [up [sample]])) = Some ?w"
    by (simp add: example_defs)
  have failed: "run_schedule (example_env 3) [TakeTick, CallStop, ProbeReturns]
     (spawn (example_env 3) (example_checker [])) = Some ?f"
    by (simp add: example_defs)
  have pre: "stop ?w = Sending \<and> pc ?w = AtSelect"
    by simp
  from stop_completes_iff_quit_taken [OF waiting, THEN conjunct2, THEN conjunct2,
      THEN conjunct1, THEN mp, OF pre]
  have "run_schedule (example_env 3) ([TakeTick, ProbeReturns, CallStop] @ [TakeQuit])
     (spawn (example_env 3) (example_checker [up [sample]])) =
     Some (?w\<lparr>pc := Finished, stop := Sent,
              checker := (checker ?w)\<lparr>ticker_running := False,
                done_ch := done_ch (checker ?w) @ [info (checker ?w)]\<rparr>\<rparr>)" .
  also have "?w\<lparr>pc := Finished, stop := Sent,
              checker := (checker ?w)\<lparr>ticker_running := False,
                done_ch := done_ch (checker ?w) @ [info (checker ?w)]\<rparr>\<rparr> =
     \<lparr>pc = Finished, retries = 3, stop = Sent,
           checker = \<lparr>info = svc_a, ticker_running = False, done_ch = [svc_a], client = [],
                      aggregator = add_stats sample [], probes = 1, hb_calls = 1\<rparr>\<rparr>"
    by simp
  finally have taken: "run_schedule (example_env 3) ([TakeTick, ProbeReturns, CallStop] @ [TakeQuit])
     (spawn (example_env 3) (example_checker [up [sample]])) =
     Some \<lparr>pc = Finished, retries = 3, stop = Sent,
           checker = \<lparr>info = svc_a, ticker_running = False, done_ch = [svc_a], client = [],
                      aggregator = add_stats sample [], probes = 1, hb_calls = 1\<rparr>\<rparr>" .
  have "(stop ?f = Sent) = (TakeQuit \<in> set [TakeTick, CallStop, ProbeReturns])"
    by (rule stop_completes_iff_quit_taken [OF failed, THEN conjunct1])
  then have notaken: "TakeQuit \<notin> set [TakeTick, CallStop, ProbeReturns]"
    by simp
  from waiting taken failed notaken show ?thesis
    by (intro conjI)
qed

text \<open>
  C6. A probe cycle whose response is not nil and has no Stats entry succeeds:
  \<^verbatim>\<open>sendHeartBeat\<close> returns nil and leaves the aggregator as it was, and the loop goes on
  from its head with \<^verbatim>\<open>retries\<close> reset to \<^verbatim>\<open>maxHeartBeatRetries\<close>.
\<close>

theorem empty_response_is_success:
  assumes "Run E (work E) (initial_probe r) = (None, p)" and "resp p = Some rs"
    and "Stats rs = []"
  shows "fst (sendHeartBeat E r) = None \<and>
         aggregator (snd (sendHeartBeat E r)) = aggregator r \<and>
         (0 < n \<longrightarrow>
            for_loop E (Tick # evs) n r =
              for_loop E evs (maxHeartBeatRetries E) (snd (sendHeartBeat E r)))"
  using assms by (simp add: sendHeartBeat_ok [OF assms(1,2)] for_loop_Tick)

text \<open>
  C6 on a loop entered with one retry left: after the empty response it waits with 3.
\<close>

theorem empty_response_is_success_witness:
  "fst (sendHeartBeat (example_env 3) (example_checker [up []])) = None \<and>
   aggregator (snd (sendHeartBeat (example_env 3) (example_checker [up []]))) = [] \<and>
   for_loop (example_env 3) [Tick] 1 (example_checker [up []]) =
     (Selecting, 3, snd (sendHeartBeat (example_env 3) (example_checker [up []])))"
proof -
  have "resp \<lparr>resp = Some \<lparr>Stats = []\<rparr>, err = None, p_client = [], calls = 1\<rparr>
          = Some \<lparr>Stats = ([] :: int Stats list)\<rparr>"
    and "Stats \<lparr>Stats = ([] :: int Stats list)\<rparr> = []"
    by simp_all
  from empty_response_is_success [OF example_run_empty this, where n = 1 and evs = "[]"]
  show ?thesis
    by (simp add: example_checker_def newHealthChecker_def example_env_def for_loop_Nil)
qed

text \<open>
  C7. When the first event the loop receives is the stop signal, a new health checker
  returns with its termination report sent and no probe made: no invocation of
  \<^verbatim>\<open>sendHeartBeat\<close>, no call of the client, client and aggregator untouched. With a
  positive budget this is what \<^verbatim>\<open>stopHealthCheck\<close> called before any tick gives.
\<close>

theorem stop_before_first_tick:
  "startHealthCheck E (Quit # evs) (newHealthChecker mk i d a) =
     (Returned, maxHeartBeatRetries E,
      \<lparr>info = i, ticker_running = False, done_ch = d @ [i], client = mk (ControlAddress i),
       aggregator = a, probes = 0, hb_calls = 0\<rparr>) \<and>
   (0 < maxHeartBeatRetries E \<longrightarrow>
      stopHealthCheck E [] (newHealthChecker mk i d a) =
        Some (Returned, maxHeartBeatRetries E,
          \<lparr>info = i, ticker_running = False, done_ch = d @ [i], client = mk (ControlAddress i),
           aggregator = a, probes = 0, hb_calls = 0\<rparr>))"
  by (simp add: startHealthCheck_def stopHealthCheck_def for_loop.simps newHealthChecker_def
      deferred_def)

text \<open>
  C7 at a budget of 3.
\<close>

theorem stop_before_first_tick_witness:
  "stopHealthCheck (example_env 3) [] (example_checker [up [sample]]) =
     Some (Returned, 3,
       \<lparr>info = svc_a, ticker_running = False, done_ch = [svc_a], client = [up [sample]],
        aggregator = [], probes = 0, hb_calls = 0\<rparr>)"
  using stop_before_first_tick [of "example_env 3" "[]" "\<lambda>address. [up [sample]]" svc_a "[]" "[]"]
  by (simp add: example_checker_def example_env_def svc_a_def)

text \<open>
  C9. An invocation of \<^verbatim>\<open>sendHeartBeat\<close> that returns an error leaves the aggregator
  unchanged.
\<close>

theorem failed_probe_leaves_aggregator:
  assumes "sendHeartBeat E r = (Some e, r')"
  shows "aggregator r' = aggregator r"
proof (cases "Run E (work E) (initial_probe r)")
  case (Pair res p)
  show ?thesis
  proof (cases res)
    case (Some e0)
    with Pair assms show ?thesis by (auto simp: sendHeartBeat_Run_error)
  next
    case None
    show ?thesis
    proof (cases "resp p")
      case nil: None
      with None Pair assms show ?thesis by (auto simp: sendHeartBeat_nil_resp)
    next
      case (Some rs)
      with None Pair assms show ?thesis by (simp add: sendHeartBeat_ok)
    qed
  qed
qed

text \<open>
  C9 on a cycle that reports success with a nil response, the aggregator holding four
  points before.
\<close>

theorem failed_probe_leaves_aggregator_witness:
  "sendHeartBeat (example_env 3)
     ((example_checker [(None, None)])\<lparr>aggregator := add_stats sample []\<rparr>) =
     (Some (HeartbeatFailed svc_a),
      \<lparr>info = svc_a, ticker_running = False, done_ch = [], client = [],
       aggregator = add_stats sample [], probes = 1, hb_calls = 1\<rparr>) \<and>
   aggregator \<lparr>info = svc_a, ticker_running = False, done_ch = [], client = [],
       aggregator = add_stats sample [], probes = 1, hb_calls = 1\<rparr> =
     aggregator ((example_checker [(None, None)])\<lparr>aggregator := add_stats sample []\<rparr>)"
proof -
  have run: "sendHeartBeat (example_env 3)
     ((example_checker [(None, None)])\<lparr>aggregator := add_stats sample []\<rparr>) =
     (Some (HeartbeatFailed svc_a),
      \<lparr>info = svc_a, ticker_running = False, done_ch = [], client = [],
       aggregator = add_stats sample [], probes = 1, hb_calls = 1\<rparr>)"
    by (simp add: example_env_def example_checker_def newHealthChecker_def sendHeartBeat_def
        work_def initial_probe_def retry_policy.simps)
  from failed_probe_leaves_aggregator [OF run] run show ?thesis by simp
qed

text \<open>
  C10. In a successful probe cycle the points added to the aggregator are a function
  of the response: the entries in the order of the response, and for each entry the
  points for CPU, memory, threads and goroutines, in this order.
\<close>

theorem data_points_in_order:
  assumes "Run E (work E) (initial_probe r) = (None, p)" and "resp p = Some rs"
  shows "aggregator (snd (sendHeartBeat E r)) =
           aggregator r @
           concat (map (\<lambda>st.
             [\<lparr>dp_MetricID = MetricCPU, dp_ServiceID = ServiceID st, dp_TS = TS st,
               dp_Value = CPU st\<rparr>,
              \<lparr>dp_MetricID = MetricMemory, dp_ServiceID = ServiceID st, dp_TS = TS st,
               dp_Value = Mem st\<rparr>,
              \<lparr>dp_MetricID = MetricThreads, dp_ServiceID = ServiceID st, dp_TS = TS st,
               dp_Value = Threads st\<rparr>,
              \<lparr>dp_MetricID = MetricNumGoroutine, dp_ServiceID = ServiceID st, dp_TS = TS st,
               dp_Value = NumGoroutines st\<rparr>]) (Stats rs))"
  by (simp add: sendHeartBeat_ok [OF assms] range_stats_points add_stats_points)

text \<open>
  C10 on a response with one entry.
\<close>

theorem data_points_in_order_witness:
  "aggregator (snd (sendHeartBeat (example_env 3) (example_checker [down, up [sample]]))) =
     [\<lparr>dp_MetricID = MetricCPU, dp_ServiceID = ''svc-a'', dp_TS = 100, dp_Value = 5\<rparr>,
      \<lparr>dp_MetricID = MetricMemory, dp_ServiceID = ''svc-a'', dp_TS = 100, dp_Value = 2\<rparr>,
      \<lparr>dp_MetricID = MetricThreads, dp_ServiceID = ''svc-a'', dp_TS = 100, dp_Value = 4\<rparr>,
      \<lparr>dp_MetricID = MetricNumGoroutine, dp_ServiceID = ''svc-a'', dp_TS = 100, dp_Value = 10\<rparr>]"
  using data_points_in_order [OF example_run_up]
  by (simp add: example_checker_def newHealthChecker_def sample_def)

end
